theory Spec2Isabelle
  imports Main
begin

section \<open>JavaScript values reaching the module\<close>

text \<open>
  The module is TypeScript, but its functions are reachable from untyped callers, and
  \<open>track\<close>, \<open>parseAffixes\<close> and \<open>generateName\<close> act on the run-time shape of their
  arguments (\<open>!== false\<close>, truthiness, \<open>typeof\<close>, conversion to a string). Arguments
  are therefore run-time values. A number is \<open>NaN\<close> or a numeric value; the module
  itself observes only whether it is zero or \<open>NaN\<close>, so numeric values are integers
  here. An object is seen through the three properties \<open>prefix\<close>, \<open>suffix\<close> and
  \<open>dir\<close> that \<open>generateName\<close> reads from it (\<open>undefined\<close> when the object has no
  such property); each of them is a value of any shape again.
\<close>

datatype number = NaN | Num int

datatype jsval =
    JUndefined
  | JNull
  | JBoolean bool
  | JNumber number
  | JBigInt int
  | JString string
  | JSymbol
  | JFunction
  | JObject jsval jsval jsval

datatype jstype =
  TUndefined | TObject | TBoolean | TNumber | TBigInt | TString | TSymbol | TFunction

fun typeof :: "jsval \<Rightarrow> jstype" where
  "typeof JUndefined = TUndefined"
| "typeof JNull = TObject"
| "typeof (JBoolean b) = TBoolean"
| "typeof (JNumber n) = TNumber"
| "typeof (JBigInt n) = TBigInt"
| "typeof (JString s) = TString"
| "typeof JSymbol = TSymbol"
| "typeof JFunction = TFunction"
| "typeof (JObject p s d) = TObject"

text \<open>The condition of \<open>if (v)\<close>: the falsy values are \<open>undefined\<close>, \<open>null\<close>,
  \<open>false\<close>, \<open>0\<close>, \<open>NaN\<close>, \<open>0n\<close> and the empty string.\<close>

fun truthy :: "jsval \<Rightarrow> bool" where
  "truthy JUndefined = False"
| "truthy JNull = False"
| "truthy (JBoolean b) = b"
| "truthy (JNumber NaN) = False"
| "truthy (JNumber (Num n)) = (n \<noteq> 0)"
| "truthy (JBigInt n) = (n \<noteq> 0)"
| "truthy (JString s) = (s \<noteq> [])"
| "truthy JSymbol = True"
| "truthy JFunction = True"
| "truthy (JObject p s d) = True"

text \<open>
  What is thrown or handed to a callback as an error: an \<open>Error\<close> object, identified
  by its message, or a \<open>TypeError\<close> raised by the runtime or by \<open>path.join\<close>,
  identified by its cause. Errors handed over by the collaborators (\<open>rimraf\<close>,
  \<open>mkdirp\<close>, \<open>fs.open\<close>) and exceptions thrown by a caller's callback are values of
  the same type.
\<close>

datatype error = Error string | TypeError string

section \<open>Name generation\<close>

text \<open>
  \<open>parseAffixes\<close> (lines 76-93). The initial \<open>affixes\<close> object has \<open>prefix\<close> and
  \<open>suffix\<close> undefined and no \<open>dir\<close>. A string becomes the prefix; an object is taken
  as it is, whatever its properties hold. In the \<open>default\<close> branch the message
  concatenates the initial object, whose string conversion is \<open>[object Object]\<close>.
\<close>

record affix_options =
  prefix :: jsval
  suffix :: jsval
  dir :: jsval

definition no_affixes :: affix_options where
  "no_affixes = \<lparr>prefix = JUndefined, suffix = JUndefined, dir = JUndefined\<rparr>"

text \<open>The properties read from a value that is an object.\<close>

fun properties_of :: "jsval \<Rightarrow> affix_options" where
  "properties_of (JObject p s d) = \<lparr>prefix = p, suffix = s, dir = d\<rparr>"
| "properties_of v = no_affixes"

definition parseAffixes :: "jsval \<Rightarrow> jsval \<Rightarrow> error + affix_options" where
  "parseAffixes rawAffixes defaultPrefix =
     (if truthy rawAffixes then
        (case typeof rawAffixes of
           TString \<Rightarrow> Inr (no_affixes\<lparr>prefix := rawAffixes\<rparr>)
         | TObject \<Rightarrow> Inr (properties_of rawAffixes)
         | _ \<Rightarrow> Inl (Error ''Unknown affix declaration: [object Object]''))
      else Inr (no_affixes\<lparr>prefix := defaultPrefix\<rparr>))"

text \<open>Decimal rendering of a non-negative integer, as \<open>Array.prototype.join\<close> renders
  the year, month, day and process id.\<close>

fun decimal :: "nat \<Rightarrow> string" where
  "decimal n =
     (if n < 10 then [''0123456789'' ! n]
      else decimal (n div 10) @ [''0123456789'' ! (n mod 10)])"

text \<open>
  What \<open>generateName\<close> reads from outside the module: the current date, the process id,
  the base-36 rendering of the random number, \<open>path.join\<close> on strings, and the
  runtime's conversion to a string of a number, a bigint, a function or an object (for
  an object it runs the object's own \<open>toString\<close>, which may throw).
\<close>

record env =
  getFullYear :: nat
  getMonth :: nat
  getDate :: nat
  pid :: nat
  random36 :: string
  path_join :: "string \<Rightarrow> string \<Rightarrow> string"
  toString :: "jsval \<Rightarrow> error + string"

text \<open>
  How \<open>join\<close> renders one element of the array (line 72): \<open>undefined\<close> and \<open>null\<close>
  as the empty string, a string as itself, a symbol not at all (the conversion throws a
  \<open>TypeError\<close>), anything else by its conversion to a string.
\<close>

fun join_item :: "env \<Rightarrow> jsval \<Rightarrow> error + string" where
  "join_item e JUndefined = Inr []"
| "join_item e JNull = Inr []"
| "join_item e (JString s) = Inr s"
| "join_item e (JBoolean b) = Inr (if b then ''true'' else ''false'')"
| "join_item e JSymbol = Inl (TypeError ''Cannot convert a Symbol value to a string'')"
| "join_item e v = toString e v"

text \<open>\<open>affixes.dir || dir\<close>: the module-wide directory is used when the option is
  falsy (undefined, the empty string, \<open>0\<close>, ...); a truthy option is used whatever
  its type.\<close>

definition dir_or :: "jsval \<Rightarrow> string \<Rightarrow> jsval" where
  "dir_or d base = (if truthy d then d else JString base)"

text \<open>
  \<open>generateName\<close> (lines 56-74). After \<open>parseAffixes\<close>, \<open>join\<close> converts the prefix
  and then the suffix, and \<open>path.join\<close> throws a \<open>TypeError\<close> unless its first
  argument is a string.
\<close>

definition generateName :: "env \<Rightarrow> string \<Rightarrow> jsval \<Rightarrow> jsval \<Rightarrow> error + string" where
  "generateName e base rawAffixes defaultPrefix =
     (case parseAffixes rawAffixes defaultPrefix of
        Inl err \<Rightarrow> Inl err
      | Inr affixes \<Rightarrow>
          (case join_item e (prefix affixes) of
             Inl err \<Rightarrow> Inl err
           | Inr pre \<Rightarrow>
               (case join_item e (suffix affixes) of
                  Inl err \<Rightarrow> Inl err
                | Inr suf \<Rightarrow>
                    (let name = concat [pre,
                                        decimal (getFullYear e),
                                        decimal (getMonth e),
                                        decimal (getDate e),
                                        ''-'',
                                        decimal (pid e),
                                        ''-'',
                                        random36 e,
                                        suf]
                     in (case dir_or (dir affixes) base of
                           JString d \<Rightarrow> Inr (path_join e d name)
                         | _ \<Rightarrow> Inl (TypeError ''ERR_INVALID_ARG_TYPE''))))))"

section \<open>Module state, tracking and registration\<close>

text \<open>
  The module-level variables (lines 53, 103, 109-111). \<open>base_dir\<close> is the variable
  \<open>dir\<close>. \<open>exit_listeners\<close> is the number of listeners this module has added to the
  process's \<open>exit\<close> event: the effect of \<open>process.addListener\<close>.
\<close>

record temp_state =
  base_dir :: string
  tracking :: bool
  exitListenerAttached :: bool
  filesToDelete :: "string list"
  dirsToDelete :: "string list"
  exit_listeners :: nat

definition initial :: "string \<Rightarrow> temp_state" where
  "initial tmpdir =
     \<lparr>base_dir = tmpdir, tracking = False, exitListenerAttached = False,
      filesToDelete = [], dirsToDelete = [], exit_listeners = 0\<rparr>"

text \<open>\<open>track(value = true)\<close>: the default applies when the argument is
  \<open>undefined\<close>; then \<open>tracking = value !== false\<close>.\<close>

definition track :: "jsval \<Rightarrow> temp_state \<Rightarrow> temp_state" where
  "track v s =
     (let value = (if v = JUndefined then JBoolean True else v)
      in s\<lparr>tracking := (value \<noteq> JBoolean False)\<rparr>)"

definition attachExitListener :: "temp_state \<Rightarrow> temp_state" where
  "attachExitListener s =
     (if \<not> tracking s then s
      else if \<not> exitListenerAttached s then
        s\<lparr>exit_listeners := Suc (exit_listeners s), exitListenerAttached := True\<rparr>
      else s)"

definition deleteFileOnExit :: "string \<Rightarrow> temp_state \<Rightarrow> temp_state" where
  "deleteFileOnExit filePath s =
     (if \<not> tracking s then s
      else (let s1 = attachExitListener s
            in s1\<lparr>filesToDelete := filesToDelete s1 @ [filePath]\<rparr>))"

definition deleteDirOnExit :: "string \<Rightarrow> temp_state \<Rightarrow> temp_state" where
  "deleteDirOnExit dirPath s =
     (if \<not> tracking s then s
      else (let s1 = attachExitListener s
            in s1\<lparr>dirsToDelete := dirsToDelete s1 @ [dirPath]\<rparr>))"

section \<open>Synchronous cleanup\<close>

text \<open>
  \<open>rimrafSync\<close> acts on the file system, of which the module knows nothing: the file
  system is a value of an arbitrary type \<open>'w\<close>, and the collaborator either returns
  (\<open>None\<close>) or throws (\<open>Some err\<close>), leaving a new file system.
\<close>

type_synonym 'w removal = "string \<Rightarrow> 'w \<Rightarrow> error option \<times> 'w"

text \<open>A count as the module hands it out: a number, \<open>false\<close> (the synchronous drains
  when not tracking) or \<open>undefined\<close> (an argument the caller of a callback left out).\<close>

datatype jscount = Count nat | CFalse | CUndefined

record stats =
  files :: jscount
  dirs :: jscount

text \<open>
  The loop \<open>while ((toDelete = list.shift()) !== undefined) { rimrafSync(toDelete); count++ }\<close>.
  The list holds strings only, so \<open>shift\<close> yields \<open>undefined\<close> exactly on the empty
  list. The result carries what is left of the list: when \<open>rimrafSync\<close> throws, the
  entry it was given has already been taken off.
\<close>

fun drainSync :: "'w removal \<Rightarrow> string list \<Rightarrow> nat \<Rightarrow> 'w \<Rightarrow> (error + nat) \<times> string list \<times> 'w" where
  "drainSync rimrafSync [] n w = (Inr n, [], w)"
| "drainSync rimrafSync (toDelete # rest) n w =
     (case rimrafSync toDelete w of
        (Some err, w') \<Rightarrow> (Inl err, rest, w')
      | (None, w') \<Rightarrow> drainSync rimrafSync rest (n + 1) w')"

definition cleanupFilesSync :: "'w removal \<Rightarrow> temp_state \<Rightarrow> 'w \<Rightarrow> (error + jscount) \<times> temp_state \<times> 'w" where
  "cleanupFilesSync rimrafSync s w =
     (if \<not> tracking s then (Inr CFalse, s, w)
      else (case drainSync rimrafSync (filesToDelete s) 0 w of
              (Inl err, rest, w') \<Rightarrow> (Inl err, s\<lparr>filesToDelete := rest\<rparr>, w')
            | (Inr n, rest, w') \<Rightarrow> (Inr (Count n), s\<lparr>filesToDelete := rest\<rparr>, w')))"

definition cleanupDirsSync :: "'w removal \<Rightarrow> temp_state \<Rightarrow> 'w \<Rightarrow> (error + jscount) \<times> temp_state \<times> 'w" where
  "cleanupDirsSync rimrafSync s w =
     (if \<not> tracking s then (Inr CFalse, s, w)
      else (case drainSync rimrafSync (dirsToDelete s) 0 w of
              (Inl err, rest, w') \<Rightarrow> (Inl err, s\<lparr>dirsToDelete := rest\<rparr>, w')
            | (Inr n, rest, w') \<Rightarrow> (Inr (Count n), s\<lparr>dirsToDelete := rest\<rparr>, w')))"

text \<open>\<open>cleanupSync\<close> returns \<open>false\<close> (\<open>None\<close>) or the two counts.\<close>

definition cleanupSync :: "'w removal \<Rightarrow> temp_state \<Rightarrow> 'w \<Rightarrow> (error + stats option) \<times> temp_state \<times> 'w" where
  "cleanupSync rimrafSync s w =
     (if \<not> tracking s then (Inr None, s, w)
      else (case cleanupFilesSync rimrafSync s w of
              (Inl err, s1, w1) \<Rightarrow> (Inl err, s1, w1)
            | (Inr fileCount, s1, w1) \<Rightarrow>
                (case cleanupDirsSync rimrafSync s1 w1 of
                   (Inl err, s2, w2) \<Rightarrow> (Inl err, s2, w2)
                 | (Inr dirCount, s2, w2) \<Rightarrow>
                     (Inr (Some \<lparr>files = fileCount, dirs = dirCount\<rparr>), s2, w2))))"

text \<open>
  The listener installed by \<open>attachExitListener\<close> (lines 128-135): it runs
  \<open>cleanupSync\<close>; an exception is reported with \<open>console.warn\<close> and thrown again.
  The result is the exception leaving the listener, if any, and the warnings printed.
\<close>

definition exitListener :: "'w removal \<Rightarrow> temp_state \<Rightarrow> 'w \<Rightarrow> (error option \<times> error list) \<times> temp_state \<times> 'w" where
  "exitListener rimrafSync s w =
     (case cleanupSync rimrafSync s w of
        (Inl err, s', w') \<Rightarrow> ((Some err, [err]), s', w')
      | (Inr r, s', w') \<Rightarrow> ((None, []), s', w'))"

section \<open>Resource factories\<close>

text \<open>
  \<open>mkdir\<close> and \<open>open\<close> generate a name (which may throw at once) and hand the path to
  the collaborator (\<open>mkdirp\<close>, \<open>fs.open\<close> with the flags \<open>RDWR_EXCL\<close>). The
  collaborator answers later through the arrow function given to it, which is modelled
  on its own: it reads the module state of the moment it runs.
  A call \<open>callback(err, result)\<close> is the pair of its arguments.
\<close>

type_synonym 'r call = "error option \<times> 'r"

record open_file =
  path :: string
  fd :: "nat option"

definition mkdir :: "env \<Rightarrow> jsval \<Rightarrow> temp_state \<Rightarrow> error + string" where
  "mkdir e affixes s = generateName e (base_dir s) affixes (JString ''d-'')"

definition mkdir_callback :: "string \<Rightarrow> error option \<Rightarrow> temp_state \<Rightarrow> temp_state \<times> string call" where
  "mkdir_callback dirPath err s =
     ((if err = None then deleteDirOnExit dirPath s else s), (err, dirPath))"

definition "open" :: "env \<Rightarrow> jsval \<Rightarrow> temp_state \<Rightarrow> error + string" where
  "open e affixes s = generateName e (base_dir s) affixes (JString ''f-'')"

definition open_callback :: "string \<Rightarrow> error option \<Rightarrow> nat option \<Rightarrow> temp_state \<Rightarrow> temp_state \<times> open_file call" where
  "open_callback p err descriptor s =
     ((if err = None then deleteFileOnExit p s else s), (err, \<lparr>path = p, fd = descriptor\<rparr>))"

text \<open>The synchronous factories: the collaborator throws or returns, and the
  registration is the statement after it.\<close>

definition mkdirSync ::
  "env \<Rightarrow> (string \<Rightarrow> 'w \<Rightarrow> error option \<times> 'w) \<Rightarrow> jsval \<Rightarrow> temp_state \<Rightarrow> 'w \<Rightarrow> (error + string) \<times> temp_state \<times> 'w" where
  "mkdirSync e mkdirp_sync affixes s w =
     (case generateName e (base_dir s) affixes (JString ''d-'') of
        Inl err \<Rightarrow> (Inl err, s, w)
      | Inr dirPath \<Rightarrow>
          (case mkdirp_sync dirPath w of
             (Some err, w') \<Rightarrow> (Inl err, s, w')
           | (None, w') \<Rightarrow> (Inr dirPath, deleteDirOnExit dirPath s, w')))"

definition openSync ::
  "env \<Rightarrow> (string \<Rightarrow> 'w \<Rightarrow> (error + nat) \<times> 'w) \<Rightarrow> jsval \<Rightarrow> temp_state \<Rightarrow> 'w \<Rightarrow> (error + open_file) \<times> temp_state \<times> 'w" where
  "openSync e fs_openSync affixes s w =
     (case generateName e (base_dir s) affixes (JString ''f-'') of
        Inl err \<Rightarrow> (Inl err, s, w)
      | Inr p \<Rightarrow>
          (case fs_openSync p w of
             (Inl err, w') \<Rightarrow> (Inl err, s, w')
           | (Inr descriptor, w') \<Rightarrow>
               (Inr \<lparr>path = p, fd = Some descriptor\<rparr>, deleteFileOnExit p s, w')))"

text \<open>\<open>fs.createWriteStream\<close> returns the stream at once; the stream is identified by
  its path.\<close>

definition createWriteStream :: "env \<Rightarrow> jsval \<Rightarrow> temp_state \<Rightarrow> (error + string) \<times> temp_state" where
  "createWriteStream e affixes s =
     (case generateName e (base_dir s) affixes (JString ''s-'') of
        Inl err \<Rightarrow> (Inl err, s)
      | Inr p \<Rightarrow> (Inr p, deleteFileOnExit p s))"

text \<open>A successful creation registers its path: every factory, once its collaborator
  has succeeded, calls \<open>deleteFileOnExit\<close> or \<open>deleteDirOnExit\<close> on the path.\<close>

datatype resource = TempFile string | TempDir string

fun register :: "resource \<Rightarrow> temp_state \<Rightarrow> temp_state" where
  "register (TempFile p) s = deleteFileOnExit p s"
| "register (TempDir p) s = deleteDirOnExit p s"

definition creations :: "resource list \<Rightarrow> temp_state \<Rightarrow> temp_state" where
  "creations rs s = fold register rs s"

section \<open>Asynchronous cleanup\<close>

text \<open>
  An asynchronous drain has two parts. The call itself checks \<open>tracking\<close>, empties the
  list and hands every entry to \<open>rimraf\<close>; it yields the new module state, the closure
  variables \<open>count\<close> and \<open>left\<close>, the calls made to \<open>callback\<close> so far, and the
  paths requested from \<open>rimraf\<close> in order. Then \<open>rimrafCallback\<close> runs once for each
  completion that arrives, in any order, on the closure variables.
  Where the call returns before defining \<open>rimrafCallback\<close>, \<open>left\<close> is 0.

  The \<open>callback\<close> is the caller's function (or, in promise style, the function made
  by \<open>promisify\<close>, which never throws), and a caller's function may throw. Where the
  module calls it as its last statement, the exception only leaves the module. In
  \<open>rimrafCallback\<close> the error branch calls it before \<open>left = 0\<close>, so an exception
  there leaves \<open>left\<close> as it was. A completion is therefore a pair: the error
  \<open>rimraf\<close> reports (\<open>None\<close> for success), and the exception the \<open>callback\<close> throws
  if this completion makes \<open>rimrafCallback\<close> call it (\<open>None\<close> when it returns).
  \<open>rimrafCallback\<close> yields the closure variables, the calls it made, and the exception
  that leaves it towards \<open>rimraf\<close>.
\<close>

type_synonym completion = "error option \<times> error option"

record drain =
  count :: nat
  left :: nat

definition cleanupFiles :: "temp_state \<Rightarrow> temp_state \<times> drain \<times> jscount call list \<times> string list" where
  "cleanupFiles s =
     (if \<not> tracking s then
        (s, \<lparr>count = 0, left = 0\<rparr>, [(Some (Error ''not tracking''), CUndefined)], [])
      else if length (filesToDelete s) = 0 then
        (s, \<lparr>count = 0, left = 0\<rparr>, [(None, Count 0)], [])
      else
        (s\<lparr>filesToDelete := []\<rparr>, \<lparr>count = 0, left = length (filesToDelete s)\<rparr>, [],
         filesToDelete s))"

text \<open>Lines 168-186: on an error, \<open>callback(err)\<close> has one argument, and
  \<open>left = 0\<close> is the statement after the call.\<close>

definition rimrafCallback_files ::
  "error option \<Rightarrow> error option \<Rightarrow> drain \<Rightarrow> drain \<times> jscount call list \<times> error option" where
  "rimrafCallback_files err thrown d =
     (if left d = 0 then (d, [], None)
      else (case err of
              Some e \<Rightarrow>
                (case thrown of
                   Some x \<Rightarrow> (d, [(Some e, CUndefined)], Some x)
                 | None \<Rightarrow> (d\<lparr>left := 0\<rparr>, [(Some e, CUndefined)], None))
            | None \<Rightarrow>
                (let d1 = d\<lparr>count := count d + 1\<rparr>;
                     d2 = d1\<lparr>left := left d1 - 1\<rparr>
                 in if left d2 = 0 then (d2, [(None, Count (count d2))], thrown)
                    else (d2, [], None))))"

definition cleanupDirs :: "temp_state \<Rightarrow> temp_state \<times> drain \<times> jscount call list \<times> string list" where
  "cleanupDirs s =
     (if \<not> tracking s then
        (s, \<lparr>count = 0, left = 0\<rparr>, [(Some (Error ''not tracking''), CUndefined)], [])
      else if length (dirsToDelete s) = 0 then
        (s, \<lparr>count = 0, left = 0\<rparr>, [(None, Count 0)], [])
      else
        (s\<lparr>dirsToDelete := []\<rparr>, \<lparr>count = 0, left = length (dirsToDelete s)\<rparr>, [],
         dirsToDelete s))"

text \<open>Lines 221-239: on an error, \<open>callback(err, count)\<close>, and \<open>left = 0\<close> is the
  statement after the call.\<close>

definition rimrafCallback_dirs ::
  "error option \<Rightarrow> error option \<Rightarrow> drain \<Rightarrow> drain \<times> jscount call list \<times> error option" where
  "rimrafCallback_dirs err thrown d =
     (if left d = 0 then (d, [], None)
      else (case err of
              Some e \<Rightarrow>
                (case thrown of
                   Some x \<Rightarrow> (d, [(Some e, Count (count d))], Some x)
                 | None \<Rightarrow> (d\<lparr>left := 0\<rparr>, [(Some e, Count (count d))], None))
            | None \<Rightarrow>
                (let d1 = d\<lparr>count := count d + 1\<rparr>;
                     d2 = d1\<lparr>left := left d1 - 1\<rparr>
                 in if left d2 = 0 then (d2, [(None, Count (count d2))], thrown)
                    else (d2, [], None))))"

text \<open>A drain receiving completions one after the other; the calls made to
  \<open>callback\<close> accumulate. An exception leaving \<open>rimrafCallback\<close> goes to \<open>rimraf\<close>
  and does not reach the drain again.\<close>

fun completions ::
  "(error option \<Rightarrow> error option \<Rightarrow> drain \<Rightarrow> drain \<times> jscount call list \<times> error option) \<Rightarrow>
   completion list \<Rightarrow> drain \<times> jscount call list \<Rightarrow> drain \<times> jscount call list" where
  "completions rimrafCallback [] (d, calls) = (d, calls)"
| "completions rimrafCallback (c # cs) (d, calls) =
     (case rimrafCallback (fst c) (snd c) d of
        (d', new, exn) \<Rightarrow> completions rimrafCallback cs (d', calls @ new))"

definition cleanupFiles_then :: "temp_state \<Rightarrow> completion list \<Rightarrow> drain \<times> jscount call list" where
  "cleanupFiles_then s cs =
     (case cleanupFiles s of
        (s', d, calls, requests) \<Rightarrow> completions rimrafCallback_files cs (d, calls))"

definition cleanupDirs_then :: "temp_state \<Rightarrow> completion list \<Rightarrow> drain \<times> jscount call list" where
  "cleanupDirs_then s cs =
     (case cleanupDirs s of
        (s', d, calls, requests) \<Rightarrow> completions rimrafCallback_dirs cs (d, calls))"

subsection \<open>The combined cleanup\<close>

text \<open>
  \<open>cleanup\<close> (lines 258-276) chains the two drains: the function given to
  \<open>cleanupFiles\<close> either reports the file error with \<open>{files: fileCount}\<close> or calls
  \<open>cleanupDirs\<close>, at that later moment and on the module state of that moment, with a
  function that reports \<open>{files: fileCount, dirs: dirCount}\<close>. A run of \<open>cleanup\<close> is
  the module state together with the closure variables of both drains, the
  \<open>fileCount\<close> the inner function has captured, the calls made to the overall
  \<open>callback\<close> (its result argument is \<open>None\<close> when left out) and the paths requested
  from \<open>rimraf\<close>. Both functions call the overall \<open>callback\<close> as their last
  statement, so each throws exactly when the overall \<open>callback\<close> does.
\<close>

record cleanup_run =
  mstate :: temp_state
  fileDrain :: drain
  dirDrain :: drain
  fileCount :: jscount
  results :: "stats option call list"
  requests :: "string list"

definition dirs_done :: "jscount \<Rightarrow> jscount call \<Rightarrow> stats option call" where
  "dirs_done fc c = (fst c, Some \<lparr>files = fc, dirs = snd c\<rparr>)"

definition files_done :: "jscount call \<Rightarrow> cleanup_run \<Rightarrow> cleanup_run" where
  "files_done c r =
     (case fst c of
        Some fileErr \<Rightarrow>
          r\<lparr>results := results r @ [(Some fileErr, Some \<lparr>files = snd c, dirs = CUndefined\<rparr>)]\<rparr>
      | None \<Rightarrow>
          (case cleanupDirs (mstate r) of
             (s', d, calls, reqs) \<Rightarrow>
               r\<lparr>mstate := s', dirDrain := d, fileCount := snd c,
                 results := results r @ map (dirs_done (snd c)) calls,
                 requests := requests r @ reqs\<rparr>))"

definition cleanup :: "temp_state \<Rightarrow> cleanup_run" where
  "cleanup s =
     (if \<not> tracking s then
        \<lparr>mstate = s, fileDrain = \<lparr>count = 0, left = 0\<rparr>, dirDrain = \<lparr>count = 0, left = 0\<rparr>,
         fileCount = CUndefined, results = [(Some (Error ''not tracking''), None)],
         requests = []\<rparr>
      else
        (case cleanupFiles s of
           (s', d, calls, reqs) \<Rightarrow>
             fold files_done calls
               \<lparr>mstate = s', fileDrain = d, dirDrain = \<lparr>count = 0, left = 0\<rparr>,
                fileCount = CUndefined, results = [], requests = reqs\<rparr>))"

text \<open>What can happen while a \<open>cleanup\<close> is in flight: a file or directory removal
  completes (with the error reported and what the overall \<open>callback\<close> throws if it is
  called then), or the program calls \<open>track\<close> or registers a new resource.\<close>

datatype event =
    FileRemoved "error option" "error option"
  | DirRemoved "error option" "error option"
  | Track jsval
  | FileCreated string
  | DirCreated string

fun step :: "event \<Rightarrow> cleanup_run \<Rightarrow> cleanup_run" where
  "step (FileRemoved err thrown) r =
     (case rimrafCallback_files err thrown (fileDrain r) of
        (d', calls, exn) \<Rightarrow> fold files_done calls (r\<lparr>fileDrain := d'\<rparr>))"
| "step (DirRemoved err thrown) r =
     (case rimrafCallback_dirs err thrown (dirDrain r) of
        (d', calls, exn) \<Rightarrow>
          r\<lparr>dirDrain := d', results := results r @ map (dirs_done (fileCount r)) calls\<rparr>)"
| "step (Track v) r = r\<lparr>mstate := track v (mstate r)\<rparr>"
| "step (FileCreated p) r = r\<lparr>mstate := deleteFileOnExit p (mstate r)\<rparr>"
| "step (DirCreated p) r = r\<lparr>mstate := deleteDirOnExit p (mstate r)\<rparr>"

definition run :: "event list \<Rightarrow> cleanup_run \<Rightarrow> cleanup_run" where
  "run evs r = fold step evs r"

text \<open>An event at which the overall \<open>callback\<close>, if called, returns.\<close>

fun callback_returns :: "event \<Rightarrow> bool" where
  "callback_returns (FileRemoved err thrown) = (thrown = None)"
| "callback_returns (DirRemoved err thrown) = (thrown = None)"
| "callback_returns ev = True"

subsection \<open>Invariants of the drains\<close>

text \<open>As long as the \<open>callback\<close> returns, a drain has called it exactly once when
  \<open>left\<close> is 0, and not yet otherwise.\<close>

definition settled :: "drain \<times> jscount call list \<Rightarrow> bool" where
  "settled x = (length (snd x) = (if left (fst x) = 0 then 1 else 0))"

text \<open>As long as the overall \<open>callback\<close> returns, a run of \<open>cleanup\<close> has called it
  exactly once when neither drain is waiting for completions, and not yet otherwise;
  the two drains never wait at the same time.\<close>

definition answered :: "cleanup_run \<Rightarrow> bool" where
  "answered r =
     (length (results r) = (if left (fileDrain r) = 0 \<and> left (dirDrain r) = 0 then 1 else 0)
      \<and> (left (fileDrain r) = 0 \<or> left (dirDrain r) = 0))"

section \<open>Collaborators and inputs used in examples\<close>

text \<open>A file system that is the list of removal requests it has received, with a
  \<open>rimrafSync\<close> that always succeeds, and one that throws on a given path.\<close>

definition rimraf_logging :: "string list removal" where
  "rimraf_logging p w = (None, w @ [p])"

definition rimraf_failing :: "string \<Rightarrow> string list removal" where
  "rimraf_failing bad p w = (if p = bad then (Some (Error ''EBUSY''), w @ [p]) else (None, w @ [p]))"

text \<open>An environment: 3 November 2026 (months count from 0), and the string
  conversions of the values the examples use.\<close>

fun example_toString :: "jsval \<Rightarrow> error + string" where
  "example_toString (JNumber NaN) = Inr ''NaN''"
| "example_toString (JNumber (Num n)) =
     Inr (if n < 0 then ''-'' @ decimal (nat (- n)) else decimal (nat n))"
| "example_toString (JBigInt n) =
     Inr (if n < 0 then ''-'' @ decimal (nat (- n)) else decimal (nat n))"
| "example_toString JFunction = Inr ''function () { }''"
| "example_toString v = Inr ''[object Object]''"

definition example_join :: "string \<Rightarrow> string \<Rightarrow> string" where
  "example_join d n = d @ ''/'' @ n"

definition example_env :: env where
  "example_env =
     \<lparr>getFullYear = 2026, getMonth = 10, getDate = 3, pid = 4242, random36 = ''1z141z4'',
      path_join = example_join, toString = example_toString\<rparr>"

text \<open>A state reached by \<open>track()\<close> and three successful creations, and the same
  state after \<open>track(false)\<close>.\<close>

definition example_tracked :: temp_state where
  "example_tracked =
     deleteDirOnExit ''/tmp/d-1''
       (deleteFileOnExit ''/tmp/f-2''
          (deleteFileOnExit ''/tmp/f-1'' (track JUndefined (initial ''/tmp''))))"

definition example_three :: temp_state where
  "example_three =
     (track JUndefined (initial ''/tmp''))
       \<lparr>exitListenerAttached := True, exit_listeners := 1,
        filesToDelete := [''/tmp/f-1'', ''/tmp/f-2'', ''/tmp/f-3''],
        dirsToDelete := [''/tmp/d-1'', ''/tmp/d-2'', ''/tmp/d-3'']\<rparr>"

definition example_untracked :: temp_state where
  "example_untracked = track (JBoolean False) example_tracked"

section \<open>Properties\<close>

declare decimal.simps [simp del]

lemma example_tracked_eq:
  "example_tracked =
     \<lparr>base_dir = ''/tmp'', tracking = True, exitListenerAttached = True,
      filesToDelete = [''/tmp/f-1'', ''/tmp/f-2''], dirsToDelete = [''/tmp/d-1''],
      exit_listeners = 1\<rparr>"
  by (simp add: example_tracked_def initial_def track_def deleteFileOnExit_def
      deleteDirOnExit_def attachExitListener_def)

lemma example_untracked_eq:
  "example_untracked =
     \<lparr>base_dir = ''/tmp'', tracking = False, exitListenerAttached = True,
      filesToDelete = [''/tmp/f-1'', ''/tmp/f-2''], dirsToDelete = [''/tmp/d-1''],
      exit_listeners = 1\<rparr>"
  by (simp add: example_untracked_def example_tracked_eq track_def)

subsection \<open>The tracking flag\<close>

text \<open>
  C10. \<open>track(value)\<close> leaves tracking disabled only when \<open>value\<close> is the boolean
  \<open>false\<close>; after any other argument, among them \<open>undefined\<close>, \<open>null\<close>, \<open>0\<close> and
  the empty string, tracking is enabled.
\<close>

theorem C10_track_only_false_disables:
  "tracking (track v s) = (v \<noteq> JBoolean False)
   \<and> tracking (track JUndefined s) \<and> tracking (track JNull s)
   \<and> tracking (track (JNumber (Num 0)) s) \<and> tracking (track (JString []) s)
   \<and> \<not> tracking (track (JBoolean False) s)"
  by (simp add: track_def)

text \<open>
  C1 as stated fails in the initial state: tracking is off there, neither registration
  appends its path, and \<open>cleanupSync\<close> returns \<open>false\<close>.
\<close>

theorem C1_counterexample:
  "\<not> tracking (initial ''/tmp'')
   \<and> filesToDelete (deleteFileOnExit ''/tmp/f-1'' (initial ''/tmp'')) = []
   \<and> dirsToDelete (deleteDirOnExit ''/tmp/d-1'' (initial ''/tmp'')) = []
   \<and> fst (cleanupSync rimraf_logging (initial ''/tmp'') []) = Inr None"
  by (simp add: initial_def deleteFileOnExit_def deleteDirOnExit_def cleanupSync_def)

subsection \<open>Synchronous cleanup\<close>

lemma drainSync_returns:
  "drainSync rm xs n w = (Inr m, rest, w') \<Longrightarrow> rest = [] \<and> m = n + length xs"
proof (induction xs arbitrary: n w)
  case Nil
  then show ?case by simp
next
  case (Cons x xs)
  obtain r w1 where rm: "rm x w = (r, w1)" by (cases "rm x w") auto
  show ?case
  proof (cases r)
    case None
    with Cons.prems rm have "drainSync rm xs (n + 1) w1 = (Inr m, rest, w')" by simp
    from Cons.IH [OF this] show ?thesis by simp
  next
    case (Some e)
    with Cons.prems rm show ?thesis by simp
  qed
qed

lemma cleanupFilesSync_returns:
  assumes "tracking s" and "cleanupFilesSync rm s w = (Inr c, s', w')"
  shows "c = Count (length (filesToDelete s)) \<and> s' = s\<lparr>filesToDelete := []\<rparr>"
proof (cases "drainSync rm (filesToDelete s) 0 w")
  case (fields r rest w1)
  with assms show ?thesis
    by (cases r) (auto simp: cleanupFilesSync_def dest: drainSync_returns)
qed

lemma cleanupDirsSync_returns:
  assumes "tracking s" and "cleanupDirsSync rm s w = (Inr c, s', w')"
  shows "c = Count (length (dirsToDelete s)) \<and> s' = s\<lparr>dirsToDelete := []\<rparr>"
proof (cases "drainSync rm (dirsToDelete s) 0 w")
  case (fields r rest w1)
  with assms show ?thesis
    by (cases r) (auto simp: cleanupDirsSync_def dest: drainSync_returns)
qed

lemma cleanupSync_returns:
  assumes t: "tracking s" and r: "cleanupSync rm s w = (Inr res, s', w')"
  shows "res = Some \<lparr>files = Count (length (filesToDelete s)),
                     dirs = Count (length (dirsToDelete s))\<rparr>
         \<and> s' = s\<lparr>filesToDelete := [], dirsToDelete := []\<rparr>"
proof -
  obtain r1 s1 w1 where f: "cleanupFilesSync rm s w = (r1, s1, w1)"
    by (cases "cleanupFilesSync rm s w") auto
  show ?thesis
  proof (cases r1)
    case (Inl e)
    with t r f show ?thesis by (simp add: cleanupSync_def)
  next
    case (Inr fc)
    from f Inr have "cleanupFilesSync rm s w = (Inr fc, s1, w1)" by simp
    from cleanupFilesSync_returns [OF t this]
    have f': "fc = Count (length (filesToDelete s))" "s1 = s\<lparr>filesToDelete := []\<rparr>"
      by simp_all
    obtain r2 s2 w2 where d: "cleanupDirsSync rm s1 w1 = (r2, s2, w2)"
      by (cases "cleanupDirsSync rm s1 w1") auto
    show ?thesis
    proof (cases r2)
      case (Inl e)
      with t r f d \<open>r1 = Inr fc\<close> show ?thesis by (simp add: cleanupSync_def)
    next
      case (Inr dc)
      have t1: "tracking s1" using t f' by simp
      from d Inr have "cleanupDirsSync rm s1 w1 = (Inr dc, s2, w2)" by simp
      from cleanupDirsSync_returns [OF t1 this]
      have "dc = Count (length (dirsToDelete s1))" "s2 = s1\<lparr>dirsToDelete := []\<rparr>"
        by simp_all
      with t r f d \<open>r1 = Inr fc\<close> Inr f' show ?thesis by (simp add: cleanupSync_def)
    qed
  qed
qed

lemma cleanupSync_empty:
  "tracking s \<Longrightarrow> filesToDelete s = [] \<Longrightarrow> dirsToDelete s = [] \<Longrightarrow>
   cleanupSync rm s w = (Inr (Some \<lparr>files = Count 0, dirs = Count 0\<rparr>), s, w)"
  by (simp add: cleanupSync_def cleanupFilesSync_def cleanupDirsSync_def)

lemma drainSync_no_throw:
  "\<forall>q v. fst (rm q v) = None \<Longrightarrow>
   drainSync rm xs n w = (Inr (n + length xs), [], fold (\<lambda>q v. snd (rm q v)) xs w)"
proof (induction xs arbitrary: n w)
  case Nil
  then show ?case by simp
next
  case (Cons x xs)
  from Cons.prems have "fst (rm x w) = None" by simp
  then obtain w1 where rm: "rm x w = (None, w1)" by (cases "rm x w") simp
  from Cons.IH [OF Cons.prems, of "n + 1" w1] rm show ?case by simp
qed

lemma cleanupSync_no_throw:
  assumes "tracking s" and "\<forall>q v. fst (rm q v) = None"
  shows "cleanupSync rm s w =
     (Inr (Some \<lparr>files = Count (length (filesToDelete s)),
                 dirs = Count (length (dirsToDelete s))\<rparr>),
      s\<lparr>filesToDelete := [], dirsToDelete := []\<rparr>,
      fold (\<lambda>q v. snd (rm q v)) (filesToDelete s @ dirsToDelete s) w)"
  using assms(1)
  by (simp add: cleanupSync_def cleanupFilesSync_def cleanupDirsSync_def
      drainSync_no_throw [OF assms(2)])

lemma cleanupSync_never_false:
  assumes "tracking s"
  shows "fst (cleanupSync rm s w) \<noteq> Inr None"
proof -
  obtain r1 s1 w1 where f: "cleanupFilesSync rm s w = (r1, s1, w1)"
    by (cases "cleanupFilesSync rm s w") auto
  obtain r2 s2 w2 where d: "cleanupDirsSync rm s1 w1 = (r2, s2, w2)"
    by (cases "cleanupDirsSync rm s1 w1") auto
  from assms f d show ?thesis
    by (cases r1; cases r2) (simp_all add: cleanupSync_def)
qed

text \<open>
  C1, as the code has it. Before any call of \<open>track\<close>, tracking is off: in the initial
  state a registration changes nothing and \<open>cleanupSync\<close> returns \<open>false\<close> without
  touching the file system. A call \<open>track()\<close> turns tracking on, in any state. In every
  state with tracking on, a registration appends the path at the end of its own list and
  leaves the other list alone, and \<open>cleanupSync\<close> never returns \<open>false\<close>: when it
  returns, it returns the two counts, which are the lengths of the two lists, and has
  emptied both lists; and it does return, having asked for the removal of every pending
  file and then of every pending directory in order, when no removal throws.
\<close>

theorem C1_initial_tracking_off:
  "\<not> tracking (initial t)
   \<and> deleteFileOnExit p (initial t) = initial t
   \<and> deleteDirOnExit p (initial t) = initial t
   \<and> cleanupSync rm (initial t) w = (Inr None, initial t, w)
   \<and> tracking (track JUndefined s0)
   \<and> (tracking s \<longrightarrow>
        filesToDelete (deleteFileOnExit p s) = filesToDelete s @ [p]
      \<and> dirsToDelete (deleteFileOnExit p s) = dirsToDelete s
      \<and> dirsToDelete (deleteDirOnExit p s) = dirsToDelete s @ [p]
      \<and> filesToDelete (deleteDirOnExit p s) = filesToDelete s
      \<and> fst (cleanupSync rm s w) \<noteq> Inr None
      \<and> (\<forall>res s' w'. cleanupSync rm s w = (Inr res, s', w') \<longrightarrow>
            res = Some \<lparr>files = Count (length (filesToDelete s)),
                        dirs = Count (length (dirsToDelete s))\<rparr>
            \<and> s' = s\<lparr>filesToDelete := [], dirsToDelete := []\<rparr>)
      \<and> ((\<forall>q v. fst (rm q v) = None) \<longrightarrow>
            cleanupSync rm s w =
              (Inr (Some \<lparr>files = Count (length (filesToDelete s)),
                          dirs = Count (length (dirsToDelete s))\<rparr>),
               s\<lparr>filesToDelete := [], dirsToDelete := []\<rparr>,
               fold (\<lambda>q v. snd (rm q v)) (filesToDelete s @ dirsToDelete s) w)))"
  (is "?a \<and> ?b \<and> ?c \<and> ?d \<and> ?e \<and> (_ \<longrightarrow> ?r1 \<and> ?r2 \<and> ?r3 \<and> ?r4 \<and> ?n \<and> ?ret \<and> ?tot)")
proof -
  have a: ?a and b: ?b and c: ?c and d: ?d
    by (simp_all add: initial_def deleteFileOnExit_def deleteDirOnExit_def cleanupSync_def)
  have e: ?e by (simp add: track_def)
  have on: "?r1 \<and> ?r2 \<and> ?r3 \<and> ?r4 \<and> ?n \<and> ?ret \<and> ?tot" if tr: "tracking s"
  proof -
    have r1: ?r1 and r2: ?r2 and r3: ?r3 and r4: ?r4
      using tr
      by (simp_all add: deleteFileOnExit_def deleteDirOnExit_def attachExitListener_def)
    have n: ?n by (rule cleanupSync_never_false [OF tr])
    have ret: ?ret
    proof (intro allI impI)
      fix res s' w'
      assume "cleanupSync rm s w = (Inr res, s', w')"
      from cleanupSync_returns [OF tr this]
      show "res = Some \<lparr>files = Count (length (filesToDelete s)),
                        dirs = Count (length (dirsToDelete s))\<rparr>
            \<and> s' = s\<lparr>filesToDelete := [], dirsToDelete := []\<rparr>" .
    qed
    have tot: ?tot
    proof
      assume "\<forall>q v. fst (rm q v) = None"
      from cleanupSync_no_throw [OF tr this]
      show "cleanupSync rm s w =
              (Inr (Some \<lparr>files = Count (length (filesToDelete s)),
                          dirs = Count (length (dirsToDelete s))\<rparr>),
               s\<lparr>filesToDelete := [], dirsToDelete := []\<rparr>,
               fold (\<lambda>q v. snd (rm q v)) (filesToDelete s @ dirsToDelete s) w)" .
    qed
    from r1 r2 r3 r4 n ret tot show ?thesis by (intro conjI)
  qed
  then have imp: "tracking s \<longrightarrow> ?r1 \<and> ?r2 \<and> ?r3 \<and> ?r4 \<and> ?n \<and> ?ret \<and> ?tot" by (rule impI)
  from a b c d e imp show ?thesis by (intro conjI)
qed

theorem C1_witness:
  "tracking example_tracked
   \<and> filesToDelete (deleteFileOnExit ''/tmp/f-3'' example_tracked) =
       [''/tmp/f-1'', ''/tmp/f-2'', ''/tmp/f-3'']
   \<and> dirsToDelete (deleteDirOnExit ''/tmp/d-2'' example_tracked) = [''/tmp/d-1'', ''/tmp/d-2'']
   \<and> cleanupSync rimraf_logging example_tracked [] =
       (Inr (Some \<lparr>files = Count 2, dirs = Count 1\<rparr>),
        example_tracked\<lparr>filesToDelete := [], dirsToDelete := []\<rparr>,
        [''/tmp/f-1'', ''/tmp/f-2'', ''/tmp/d-1''])"
proof -
  have t: "tracking example_tracked" by (simp add: example_tracked_eq)
  have n: "\<forall>q v. fst (rimraf_logging q v) = None" by (simp add: rimraf_logging_def)
  have l: "filesToDelete example_tracked = [''/tmp/f-1'', ''/tmp/f-2'']"
    "dirsToDelete example_tracked = [''/tmp/d-1'']"
    by (simp_all add: example_tracked_eq)
  note on = C1_initial_tracking_off [of "''/tmp''" _ rimraf_logging "[]" "initial ''/tmp''"
      example_tracked, THEN conjunct2, THEN conjunct2, THEN conjunct2, THEN conjunct2,
      THEN conjunct2, THEN mp, OF t]
  from on [of "''/tmp/f-3''"]
  have f: "filesToDelete (deleteFileOnExit ''/tmp/f-3'' example_tracked) =
      filesToDelete example_tracked @ [''/tmp/f-3'']" by (rule conjunct1)
  from on [of "''/tmp/d-2''"]
  have d: "dirsToDelete (deleteDirOnExit ''/tmp/d-2'' example_tracked) =
      dirsToDelete example_tracked @ [''/tmp/d-2'']" by (elim conjE)
  note tot = on [of "[]", THEN conjunct2, THEN conjunct2, THEN conjunct2, THEN conjunct2,
      THEN conjunct2, THEN conjunct2, THEN mp, OF n]
  have c: "cleanupSync rimraf_logging example_tracked [] =
       (Inr (Some \<lparr>files = Count 2, dirs = Count 1\<rparr>),
        example_tracked\<lparr>filesToDelete := [], dirsToDelete := []\<rparr>,
        [''/tmp/f-1'', ''/tmp/f-2'', ''/tmp/d-1''])"
    unfolding tot l by (simp add: rimraf_logging_def)
  from t f d c l show ?thesis by simp
qed

text \<open>
  C4. With tracking enabled, when \<open>cleanupSync\<close> returns (no removal has thrown), both
  pending lists are empty and the counts returned are the lengths the lists had; a
  second \<open>cleanupSync\<close> right after it, whatever the removal collaborator and the file
  system, returns \<open>{files: 0, dirs: 0}\<close> and changes nothing.
\<close>

theorem C4_cleanupSync_idempotent_drain:
  assumes "tracking s" and "cleanupSync rm s w = (Inr res, s', w')"
  shows "filesToDelete s' = [] \<and> dirsToDelete s' = []
         \<and> res = Some \<lparr>files = Count (length (filesToDelete s)),
                         dirs = Count (length (dirsToDelete s))\<rparr>
         \<and> cleanupSync rm' s' w'' = (Inr (Some \<lparr>files = Count 0, dirs = Count 0\<rparr>), s', w'')"
proof -
  from cleanupSync_returns [OF assms]
  have res: "res = Some \<lparr>files = Count (length (filesToDelete s)),
                         dirs = Count (length (dirsToDelete s))\<rparr>"
    and s': "s' = s\<lparr>filesToDelete := [], dirsToDelete := []\<rparr>" by simp_all
  from s' assms(1) have "tracking s'" "filesToDelete s' = []" "dirsToDelete s' = []"
    by simp_all
  with res cleanupSync_empty [of s' rm' w''] show ?thesis by simp
qed

lemma cleanupSync_example:
  "cleanupSync rimraf_logging example_tracked [] =
     (Inr (Some \<lparr>files = Count 2, dirs = Count 1\<rparr>),
      example_tracked\<lparr>filesToDelete := [], dirsToDelete := []\<rparr>,
      [''/tmp/f-1'', ''/tmp/f-2'', ''/tmp/d-1''])"
  by (simp add: example_tracked_eq cleanupSync_def cleanupFilesSync_def cleanupDirsSync_def
      rimraf_logging_def)

text \<open>When a removal throws, \<open>cleanupSync\<close> does not return: the entry given to
  \<open>rimrafSync\<close> has left the list, the later ones are still pending, and the exit
  listener prints the error and throws it again.\<close>

lemma cleanupSync_throwing_example:
  "cleanupSync (rimraf_failing ''/tmp/f-1'') example_tracked [] =
     (Inl (Error ''EBUSY''), example_tracked\<lparr>filesToDelete := [''/tmp/f-2'']\<rparr>,
      [''/tmp/f-1''])"
  by (simp add: example_tracked_eq cleanupSync_def cleanupFilesSync_def rimraf_failing_def)

lemma exitListener_throwing_example:
  "exitListener (rimraf_failing ''/tmp/f-1'') example_tracked [] =
     ((Some (Error ''EBUSY''), [Error ''EBUSY'']),
      example_tracked\<lparr>filesToDelete := [''/tmp/f-2'']\<rparr>, [''/tmp/f-1''])"
  by (simp add: exitListener_def cleanupSync_throwing_example)

theorem C4_witness:
  "tracking example_tracked
   \<and> cleanupSync rimraf_logging example_tracked [] =
       (Inr (Some \<lparr>files = Count 2, dirs = Count 1\<rparr>),
        example_tracked\<lparr>filesToDelete := [], dirsToDelete := []\<rparr>,
        [''/tmp/f-1'', ''/tmp/f-2'', ''/tmp/d-1''])
   \<and> cleanupSync rimraf_logging (example_tracked\<lparr>filesToDelete := [], dirsToDelete := []\<rparr>)
        [''/tmp/f-1'', ''/tmp/f-2'', ''/tmp/d-1''] =
       (Inr (Some \<lparr>files = Count 0, dirs = Count 0\<rparr>),
        example_tracked\<lparr>filesToDelete := [], dirsToDelete := []\<rparr>,
        [''/tmp/f-1'', ''/tmp/f-2'', ''/tmp/d-1''])"
proof -
  have t: "tracking example_tracked" by (simp add: example_tracked_eq)
  from C4_cleanupSync_idempotent_drain [OF t cleanupSync_example, of rimraf_logging
      "[''/tmp/f-1'', ''/tmp/f-2'', ''/tmp/d-1'']"] t cleanupSync_example
  show ?thesis by simp
qed

text \<open>
  C9. When tracking is disabled at the moment the exit listener runs, the listener asks
  for no removal (the file system is the one it was given), throws nothing, prints
  nothing and leaves the module state, with both pending lists, as it was: paths
  registered earlier, while tracking was enabled, stay in the lists.
\<close>

theorem C9_exit_listener_not_tracking:
  "\<not> tracking s \<Longrightarrow> exitListener rm s w = ((None, []), s, w)"
  by (simp add: exitListener_def cleanupSync_def)

theorem C9_witness:
  "\<not> tracking example_untracked
   \<and> filesToDelete example_untracked = [''/tmp/f-1'', ''/tmp/f-2'']
   \<and> dirsToDelete example_untracked = [''/tmp/d-1'']
   \<and> exitListener rimraf_logging example_untracked [] = ((None, []), example_untracked, [])"
proof -
  have nt: "\<not> tracking example_untracked" by (simp add: example_untracked_eq)
  from C9_exit_listener_not_tracking [OF nt, of rimraf_logging "[]"] nt
  show ?thesis by (simp add: example_untracked_eq)
qed

subsection \<open>Resource factories\<close>

text \<open>
  C8. When \<open>mkdirp\<close> (for \<open>mkdir\<close>) or \<open>fs.open\<close> (for \<open>open\<close>) reports an error, the
  function given to the collaborator leaves the module state unchanged, so the generated
  path enters neither pending list, and it calls the caller's callback with that error.
\<close>

theorem C8_failed_creation_not_registered:
  "mkdir_callback dirPath (Some err) s = (s, (Some err, dirPath))
   \<and> open_callback p (Some err) descriptor s = (s, (Some err, \<lparr>path = p, fd = descriptor\<rparr>))"
  by (simp add: mkdir_callback_def open_callback_def)

lemma mkdirSync_failure:
  "generateName e (base_dir s) affixes (JString ''d-'') = Inr dirPath \<Longrightarrow>
   mkdirp_sync dirPath w = (Some err, w') \<Longrightarrow>
   mkdirSync e mkdirp_sync affixes s w = (Inl err, s, w')"
  by (simp add: mkdirSync_def)

lemma openSync_failure:
  "generateName e (base_dir s) affixes (JString ''f-'') = Inr p \<Longrightarrow>
   fs_openSync p w = (Inl err, w') \<Longrightarrow>
   openSync e fs_openSync affixes s w = (Inl err, s, w')"
  by (simp add: openSync_def)

lemma mkdir_callback_success:
  "mkdir_callback dirPath None s = (register (TempDir dirPath) s, (None, dirPath))"
  by (simp add: mkdir_callback_def)

lemma open_callback_success:
  "open_callback p None descriptor s =
     (register (TempFile p) s, (None, \<lparr>path = p, fd = descriptor\<rparr>))"
  by (simp add: open_callback_def)

lemma mkdirSync_success:
  "generateName e (base_dir s) affixes (JString ''d-'') = Inr dirPath \<Longrightarrow>
   mkdirp_sync dirPath w = (None, w') \<Longrightarrow>
   mkdirSync e mkdirp_sync affixes s w = (Inr dirPath, register (TempDir dirPath) s, w')"
  by (simp add: mkdirSync_def)

lemma openSync_success:
  "generateName e (base_dir s) affixes (JString ''f-'') = Inr p \<Longrightarrow>
   fs_openSync p w = (Inr descriptor, w') \<Longrightarrow>
   openSync e fs_openSync affixes s w =
     (Inr \<lparr>path = p, fd = Some descriptor\<rparr>, register (TempFile p) s, w')"
  by (simp add: openSync_def)

lemma createWriteStream_success:
  "generateName e (base_dir s) affixes (JString ''s-'') = Inr p \<Longrightarrow>
   createWriteStream e affixes s = (Inr p, register (TempFile p) s)"
  by (simp add: createWriteStream_def)

subsection \<open>The exit listener is installed once\<close>

lemma register_tracking:
  "tracking s \<Longrightarrow>
   tracking (register r s) \<and> exitListenerAttached (register r s)
   \<and> exit_listeners (register r s) = exit_listeners s + (if exitListenerAttached s then 0 else 1)"
  by (cases r) (simp_all add: deleteFileOnExit_def deleteDirOnExit_def attachExitListener_def)

lemma creations_Cons: "creations (r # rs) s = creations rs (register r s)"
  by (simp add: creations_def)

lemma creations_listener:
  "tracking s \<Longrightarrow>
   tracking (creations rs s)
   \<and> exitListenerAttached (creations rs s) = (exitListenerAttached s \<or> rs \<noteq> [])
   \<and> exit_listeners (creations rs s) =
       exit_listeners s + (if exitListenerAttached s \<or> rs = [] then 0 else 1)"
proof (induction rs arbitrary: s)
  case Nil
  then show ?case by (simp add: creations_def)
next
  case (Cons r rs)
  from register_tracking [OF Cons.prems, of r]
  have t: "tracking (register r s)" and a: "exitListenerAttached (register r s)"
    and n: "exit_listeners (register r s) = exit_listeners s + (if exitListenerAttached s then 0 else 1)"
    by simp_all
  from Cons.IH [OF t] a n show ?case by (simp add: creations_Cons)
qed

text \<open>
  C5. With tracking enabled, after any sequence of successful creations the flag
  \<open>exitListenerAttached\<close> is set if it was set before or at least one creation has
  taken place, so it is set by the first registration and no registration resets it;
  and the number of exit listeners has grown by one if the flag was not set and a
  creation took place, and not at all otherwise. Counted from a fresh process in which
  \<open>track()\<close> has been called, the module has installed one listener as soon as one
  resource has been created, however many follow.
\<close>

theorem C5_exit_listener_once:
  assumes "tracking s"
  shows "exitListenerAttached (creations rs s) = (exitListenerAttached s \<or> rs \<noteq> [])
   \<and> exit_listeners (creations rs s) =
       exit_listeners s + (if exitListenerAttached s \<or> rs = [] then 0 else 1)
   \<and> exit_listeners (creations rs (track JUndefined (initial t))) = (if rs = [] then 0 else 1)"
proof -
  have t0: "tracking (track JUndefined (initial t))" by (simp add: track_def)
  have "exit_listeners (track JUndefined (initial t)) = 0"
    "\<not> exitListenerAttached (track JUndefined (initial t))"
    by (simp_all add: track_def initial_def)
  with creations_listener [OF t0, of rs] creations_listener [OF assms, of rs]
  show ?thesis by simp
qed

theorem C5_witness:
  "tracking (track JUndefined (initial ''/tmp''))
   \<and> exitListenerAttached (creations [TempFile ''/tmp/f-1'', TempDir ''/tmp/d-1'', TempFile ''/tmp/f-2'']
        (track JUndefined (initial ''/tmp'')))
   \<and> exit_listeners (creations [TempFile ''/tmp/f-1'', TempDir ''/tmp/d-1'', TempFile ''/tmp/f-2'']
        (track JUndefined (initial ''/tmp''))) = 1"
proof -
  have t0: "tracking (track JUndefined (initial ''/tmp''))" by (simp add: track_def)
  from C5_exit_listener_once [OF t0, of "[TempFile ''/tmp/f-1'', TempDir ''/tmp/d-1'', TempFile ''/tmp/f-2'']" "''/tmp''"] t0
  show ?thesis by simp
qed

subsection \<open>Cleanup while tracking is disabled\<close>

text \<open>
  C6. When tracking is disabled, \<open>cleanupSync\<close>, \<open>cleanupFilesSync\<close> and
  \<open>cleanupDirsSync\<close> return \<open>false\<close>, and \<open>cleanupFiles\<close>, \<open>cleanupDirs\<close> and
  \<open>cleanup\<close> call the callback once, with the error \<open>not tracking\<close>. The synchronous
  ones hand back the file system they were given, whatever the removal collaborator;
  the asynchronous ones request no removal; all leave the module state, with both
  pending lists, unchanged.
\<close>

theorem C6_cleanup_not_tracking:
  assumes "\<not> tracking s"
  shows "cleanupSync rm s w = (Inr None, s, w)
   \<and> cleanupFilesSync rm s w = (Inr CFalse, s, w)
   \<and> cleanupDirsSync rm s w = (Inr CFalse, s, w)
   \<and> cleanupFiles s =
       (s, \<lparr>count = 0, left = 0\<rparr>, [(Some (Error ''not tracking''), CUndefined)], [])
   \<and> cleanupDirs s =
       (s, \<lparr>count = 0, left = 0\<rparr>, [(Some (Error ''not tracking''), CUndefined)], [])
   \<and> cleanup s =
       \<lparr>mstate = s, fileDrain = \<lparr>count = 0, left = 0\<rparr>, dirDrain = \<lparr>count = 0, left = 0\<rparr>,
        fileCount = CUndefined, results = [(Some (Error ''not tracking''), None)],
        requests = []\<rparr>"
  using assms
  by (simp add: cleanupSync_def cleanupFilesSync_def cleanupDirsSync_def cleanupFiles_def
      cleanupDirs_def cleanup_def)

theorem C6_witness:
  "\<not> tracking example_untracked
   \<and> filesToDelete example_untracked = [''/tmp/f-1'', ''/tmp/f-2'']
   \<and> dirsToDelete example_untracked = [''/tmp/d-1'']
   \<and> cleanupSync rimraf_logging example_untracked [] = (Inr None, example_untracked, [])
   \<and> cleanupFilesSync rimraf_logging example_untracked [] = (Inr CFalse, example_untracked, [])
   \<and> cleanupDirsSync rimraf_logging example_untracked [] = (Inr CFalse, example_untracked, [])
   \<and> cleanupFiles example_untracked =
       (example_untracked, \<lparr>count = 0, left = 0\<rparr>,
        [(Some (Error ''not tracking''), CUndefined)], [])
   \<and> cleanupDirs example_untracked =
       (example_untracked, \<lparr>count = 0, left = 0\<rparr>,
        [(Some (Error ''not tracking''), CUndefined)], [])
   \<and> results (cleanup example_untracked) = [(Some (Error ''not tracking''), None)]
   \<and> requests (cleanup example_untracked) = []
   \<and> mstate (cleanup example_untracked) = example_untracked"
proof -
  have nt: "\<not> tracking example_untracked" by (simp add: example_untracked_eq)
  from C6_cleanup_not_tracking [OF nt, of rimraf_logging "[]"] nt
  show ?thesis by (simp add: example_untracked_eq)
qed

subsection \<open>Affixes of other shapes\<close>

lemma parseAffixes_error:
  "(parseAffixes v dp = Inl err) =
   (truthy v \<and> typeof v \<noteq> TString \<and> typeof v \<noteq> TObject
    \<and> err = Error ''Unknown affix declaration: [object Object]'')"
  by (cases "typeof v") (auto simp: parseAffixes_def)

lemma parseAffixes_falsy:
  "\<not> truthy v \<Longrightarrow> parseAffixes v dp = Inr (no_affixes\<lparr>prefix := dp\<rparr>)"
  by (simp add: parseAffixes_def)

text \<open>An object is taken as it is, so what its properties hold can still make
  \<open>generateName\<close> throw, though not the argument error: a symbol as prefix at the
  \<open>join\<close>, a truthy \<open>dir\<close> that is not a string at \<open>path.join\<close>.\<close>

lemma generateName_symbol_prefix:
  "generateName e base (JObject JSymbol s d) dp =
     Inl (TypeError ''Cannot convert a Symbol value to a string'')"
  by (simp add: generateName_def parseAffixes_def)

lemma generateName_number_dir:
  "generateName e base (JObject JUndefined JUndefined (JNumber (Num 7))) dp =
     Inl (TypeError ''ERR_INVALID_ARG_TYPE'')"
  by (simp add: generateName_def parseAffixes_def dir_or_def)

text \<open>
  C3, as the code has it. \<open>generateName\<close> throws the argument error for every truthy
  argument whose \<open>typeof\<close> is neither \<open>string\<close> nor \<open>object\<close> (\<open>true\<close>, a non-zero
  number, a non-zero bigint, a symbol, a function). A falsy argument (\<open>false\<close>, \<open>0\<close>,
  \<open>NaN\<close>, \<open>0n\<close>, \<open>null\<close>, the empty string) is treated as an absent one: the outcome
  is that of \<open>generateName\<close> without affixes.
\<close>

theorem C3_generateName_argument_error:
  "(truthy v \<and> typeof v \<noteq> TString \<and> typeof v \<noteq> TObject \<longrightarrow>
      generateName e base v dp = Inl (Error ''Unknown affix declaration: [object Object]''))
   \<and> (\<not> truthy v \<longrightarrow> generateName e base v dp = generateName e base JUndefined dp)"
proof -
  have a: "truthy v \<and> typeof v \<noteq> TString \<and> typeof v \<noteq> TObject \<Longrightarrow>
      generateName e base v dp = Inl (Error ''Unknown affix declaration: [object Object]'')"
    using parseAffixes_error [of v dp "Error ''Unknown affix declaration: [object Object]''"]
    by (simp add: generateName_def)
  have b: "\<not> truthy v \<Longrightarrow> generateName e base v dp = generateName e base JUndefined dp"
    by (simp add: generateName_def parseAffixes_falsy)
  from a b show ?thesis by blast
qed

lemma decimal_examples:
  "decimal 2026 = ''2026''" "decimal 10 = ''10''" "decimal 3 = ''3''" "decimal 4242 = ''4242''"
  by (simp_all add: decimal.simps)

lemma generateName_default_example:
  "generateName example_env ''/tmp'' JUndefined (JString ''f-'') =
     Inr ''/tmp/f-2026103-4242-1z141z4''"
  by (simp add: generateName_def parseAffixes_def example_env_def example_join_def
      no_affixes_def dir_or_def decimal_examples)

theorem C3_witness:
  "truthy (JNumber (Num 7)) \<and> typeof (JNumber (Num 7)) \<noteq> TString
   \<and> typeof (JNumber (Num 7)) \<noteq> TObject
   \<and> generateName example_env ''/tmp'' (JNumber (Num 7)) (JString ''f-'') =
       Inl (Error ''Unknown affix declaration: [object Object]'')
   \<and> \<not> truthy (JString [])
   \<and> generateName example_env ''/tmp'' (JString []) (JString ''f-'') =
       Inr ''/tmp/f-2026103-4242-1z141z4''"
  using C3_generateName_argument_error [of "JNumber (Num 7)" example_env "''/tmp''" "JString ''f-''"]
    C3_generateName_argument_error [of "JString []" example_env "''/tmp''" "JString ''f-''"]
  by (simp add: generateName_default_example)

text \<open>
  C3 as stated fails at the boolean \<open>false\<close> and at the number \<open>0\<close>: neither is a
  string, an object or absent, and \<open>generateName\<close> returns a path with the default
  prefix for both.
\<close>

theorem C3_counterexample:
  "generateName example_env ''/tmp'' (JBoolean False) (JString ''f-'') =
     Inr ''/tmp/f-2026103-4242-1z141z4''
   \<and> generateName example_env ''/tmp'' (JNumber (Num 0)) (JString ''f-'') =
     Inr ''/tmp/f-2026103-4242-1z141z4''"
  by (simp add: generateName_def parseAffixes_def example_env_def example_join_def
      no_affixes_def dir_or_def decimal_examples)

subsection \<open>Asynchronous drains\<close>

lemma example_three_eq:
  "example_three =
     \<lparr>base_dir = ''/tmp'', tracking = True, exitListenerAttached = True,
      filesToDelete = [''/tmp/f-1'', ''/tmp/f-2'', ''/tmp/f-3''],
      dirsToDelete = [''/tmp/d-1'', ''/tmp/d-2'', ''/tmp/d-3''],
      exit_listeners = 1\<rparr>"
  by (simp add: example_three_def initial_def track_def)

lemma example_three_creations:
  "creations [TempFile ''/tmp/f-1'', TempFile ''/tmp/f-2'', TempFile ''/tmp/f-3'',
              TempDir ''/tmp/d-1'', TempDir ''/tmp/d-2'', TempDir ''/tmp/d-3'']
     (track JUndefined (initial ''/tmp'')) = example_three"
  by (simp add: example_three_eq creations_def initial_def track_def deleteFileOnExit_def
      deleteDirOnExit_def attachExitListener_def)

text \<open>
  C2 at a failing input. Three files are pending, so three removals are dispatched; the
  first completes, the second reports \<open>EBUSY\<close>, the third completes, and the callback
  returns when called. \<open>cleanupFiles\<close> calls \<open>callback(err)\<close>: the count of the one
  removal that had succeeded is not passed, and the combined \<open>cleanup\<close> reports
  \<open>{files: undefined}\<close>. On the same input \<open>cleanupDirs\<close> calls \<open>callback(err, 1)\<close>.
\<close>

theorem C2_cleanupFiles_error_without_count:
  "cleanupFiles_then example_three [(None, None), (Some (Error ''EBUSY''), None), (None, None)] =
     (\<lparr>count = 1, left = 0\<rparr>, [(Some (Error ''EBUSY''), CUndefined)])
   \<and> cleanupDirs_then example_three [(None, None), (Some (Error ''EBUSY''), None), (None, None)] =
     (\<lparr>count = 1, left = 0\<rparr>, [(Some (Error ''EBUSY''), Count 1)])
   \<and> results (run [FileRemoved None None, FileRemoved (Some (Error ''EBUSY'')) None,
                   FileRemoved None None]
        (cleanup example_three)) =
     [(Some (Error ''EBUSY''), Some \<lparr>files = CUndefined, dirs = CUndefined\<rparr>)]"
  by (simp add: example_three_eq cleanupFiles_then_def cleanupDirs_then_def cleanupFiles_def
      cleanupDirs_def rimrafCallback_files_def rimrafCallback_dirs_def run_def cleanup_def
      files_done_def)

lemma rimrafCallback_files_inert:
  "left d = 0 \<Longrightarrow> rimrafCallback_files err thrown d = (d, [], None)"
  by (simp add: rimrafCallback_files_def)

lemma rimrafCallback_dirs_inert:
  "left d = 0 \<Longrightarrow> rimrafCallback_dirs err thrown d = (d, [], None)"
  by (simp add: rimrafCallback_dirs_def)

lemma completions_append:
  "completions cb (cs1 @ cs2) x = completions cb cs2 (completions cb cs1 x)"
proof (induction cs1 arbitrary: x)
  case Nil
  then show ?case by (cases x) simp
next
  case (Cons c cs1)
  then show ?case by (cases x) (simp split: prod.splits)
qed

lemma completions_inert:
  assumes "\<And>err thrown d. left d = 0 \<Longrightarrow> cb err thrown d = (d, [], None)" and "left d = 0"
  shows "completions cb cs (d, calls) = (d, calls)"
  using assms by (induction cs) simp_all

lemma files_stopped:
  "left (fst x) = 0 \<Longrightarrow> completions rimrafCallback_files cs x = x"
  using completions_inert [of rimrafCallback_files "fst x" cs "snd x"]
  by (simp add: rimrafCallback_files_inert)

lemma dirs_stopped:
  "left (fst x) = 0 \<Longrightarrow> completions rimrafCallback_dirs cs x = x"
  using completions_inert [of rimrafCallback_dirs "fst x" cs "snd x"]
  by (simp add: rimrafCallback_dirs_inert)

lemma cleanupFiles_then_append:
  "cleanupFiles_then s (cs1 @ cs2) =
     completions rimrafCallback_files cs2 (cleanupFiles_then s cs1)"
  by (simp add: cleanupFiles_then_def completions_append split: prod.splits)

lemma cleanupDirs_then_append:
  "cleanupDirs_then s (cs1 @ cs2) =
     completions rimrafCallback_dirs cs2 (cleanupDirs_then s cs1)"
  by (simp add: cleanupDirs_then_def completions_append split: prod.splits)

text \<open>The first error of a drain, after \<open>n\<close> removals have succeeded, handed to a
  callback that returns: \<open>cleanupDirs\<close> passes the count \<open>n\<close> with it,
  \<open>cleanupFiles\<close> passes no count.\<close>

lemma files_successes:
  "n < left d \<Longrightarrow>
   completions rimrafCallback_files (replicate n (None, thrown)) (d, calls) =
     (d\<lparr>count := count d + n, left := left d - n\<rparr>, calls)"
proof (induction n arbitrary: d)
  case 0
  then show ?case by simp
next
  case (Suc n)
  let ?d = "d\<lparr>count := count d + 1, left := left d - 1\<rparr>"
  from Suc.prems have "n < left ?d" by simp
  from Suc.IH [OF this] Suc.prems show ?case
    by (simp add: rimrafCallback_files_def Let_def)
qed

lemma dirs_successes:
  "n < left d \<Longrightarrow>
   completions rimrafCallback_dirs (replicate n (None, thrown)) (d, calls) =
     (d\<lparr>count := count d + n, left := left d - n\<rparr>, calls)"
proof (induction n arbitrary: d)
  case 0
  then show ?case by simp
next
  case (Suc n)
  let ?d = "d\<lparr>count := count d + 1, left := left d - 1\<rparr>"
  from Suc.prems have "n < left ?d" by simp
  from Suc.IH [OF this] Suc.prems show ?case
    by (simp add: rimrafCallback_dirs_def Let_def)
qed

lemma cleanupDirs_first_error:
  assumes "tracking s" and "n < length (dirsToDelete s)"
  shows "snd (cleanupDirs_then s (replicate n (None, thrown) @ (Some e, None) # later)) =
           [(Some e, Count n)]"
proof -
  let ?d = "\<lparr>count = 0, left = length (dirsToDelete s)\<rparr>"
  let ?cs = "replicate n (None, thrown) @ [(Some e, None)]"
  from assms have c: "cleanupDirs s = (s\<lparr>dirsToDelete := []\<rparr>, ?d, [], dirsToDelete s)"
    by (auto simp: cleanupDirs_def)
  have n: "n < left ?d" using assms by simp
  have "completions rimrafCallback_dirs ?cs (?d, []) =
      (\<lparr>count = n, left = 0\<rparr>, [(Some e, Count n)])"
    using assms(2) by (simp add: completions_append dirs_successes [OF n] rimrafCallback_dirs_def)
  with c have r: "cleanupDirs_then s ?cs = (\<lparr>count = n, left = 0\<rparr>, [(Some e, Count n)])"
    by (simp add: cleanupDirs_then_def)
  then have "left (fst (cleanupDirs_then s ?cs)) = 0" by simp
  from dirs_stopped [OF this, of later] r cleanupDirs_then_append [of s ?cs later]
  show ?thesis by simp
qed

lemma cleanupFiles_first_error:
  assumes "tracking s" and "n < length (filesToDelete s)"
  shows "snd (cleanupFiles_then s (replicate n (None, thrown) @ (Some e, None) # later)) =
           [(Some e, CUndefined)]"
proof -
  let ?d = "\<lparr>count = 0, left = length (filesToDelete s)\<rparr>"
  let ?cs = "replicate n (None, thrown) @ [(Some e, None)]"
  from assms have c: "cleanupFiles s = (s\<lparr>filesToDelete := []\<rparr>, ?d, [], filesToDelete s)"
    by (auto simp: cleanupFiles_def)
  have n: "n < left ?d" using assms by simp
  have "completions rimrafCallback_files ?cs (?d, []) =
      (\<lparr>count = n, left = 0\<rparr>, [(Some e, CUndefined)])"
    using assms(2) by (simp add: completions_append files_successes [OF n] rimrafCallback_files_def)
  with c have r: "cleanupFiles_then s ?cs = (\<lparr>count = n, left = 0\<rparr>, [(Some e, CUndefined)])"
    by (simp add: cleanupFiles_then_def)
  then have "left (fst (cleanupFiles_then s ?cs)) = 0" by simp
  from files_stopped [OF this, of later] r cleanupFiles_then_append [of s ?cs later]
  show ?thesis by simp
qed

text \<open>The invariant of a drain whose callback returns.\<close>

lemma settled_files:
  "settled (d, calls) \<Longrightarrow> rimrafCallback_files err None d = (d', new, exn) \<Longrightarrow>
   settled (d', calls @ new)"
  by (auto simp: settled_def rimrafCallback_files_def Let_def split: if_splits option.splits)

lemma settled_dirs:
  "settled (d, calls) \<Longrightarrow> rimrafCallback_dirs err None d = (d', new, exn) \<Longrightarrow>
   settled (d', calls @ new)"
  by (auto simp: settled_def rimrafCallback_dirs_def Let_def split: if_splits option.splits)

lemma settled_completions:
  assumes "\<And>err d calls d' new exn.
     settled (d, calls) \<Longrightarrow> cb err None d = (d', new, exn) \<Longrightarrow> settled (d', calls @ new)"
  shows "\<forall>c\<in>set cs. snd c = None \<Longrightarrow> settled x \<Longrightarrow> settled (completions cb cs x)"
proof (induction cs arbitrary: x)
  case Nil
  then show ?case by (cases x) simp
next
  case (Cons c cs)
  obtain d calls where x: "x = (d, calls)" by (cases x)
  from Cons.prems(1) have n: "snd c = None" and rest: "\<forall>c\<in>set cs. snd c = None" by simp_all
  obtain d' new exn where c: "cb (fst c) None d = (d', new, exn)"
    by (cases "cb (fst c) None d") auto
  from assms [OF Cons.prems(2) [unfolded x] c] have "settled (d', calls @ new)" .
  from Cons.IH [OF rest this] x c n show ?case by simp
qed

lemma settled_cleanupFiles:
  "cleanupFiles s = (s', d, calls, reqs) \<Longrightarrow> settled (d, calls)"
  by (auto simp: cleanupFiles_def settled_def split: if_splits)

lemma settled_cleanupDirs:
  "cleanupDirs s = (s', d, calls, reqs) \<Longrightarrow> settled (d, calls)"
  by (auto simp: cleanupDirs_def settled_def split: if_splits)

lemma settled_cleanupFiles_then:
  assumes "\<forall>c\<in>set cs. snd c = None"
  shows "settled (cleanupFiles_then s cs)"
proof -
  obtain s' d calls reqs where c: "cleanupFiles s = (s', d, calls, reqs)"
    by (cases "cleanupFiles s") auto
  from settled_completions [of rimrafCallback_files, OF settled_files assms
      settled_cleanupFiles [OF c]]
  show ?thesis using c by (simp add: cleanupFiles_then_def)
qed

lemma settled_cleanupDirs_then:
  assumes "\<forall>c\<in>set cs. snd c = None"
  shows "settled (cleanupDirs_then s cs)"
proof -
  obtain s' d calls reqs where c: "cleanupDirs s = (s', d, calls, reqs)"
    by (cases "cleanupDirs s") auto
  from settled_completions [of rimrafCallback_dirs, OF settled_dirs assms
      settled_cleanupDirs [OF c]]
  show ?thesis using c by (simp add: cleanupDirs_then_def)
qed

text \<open>An error handed to a callback that returns stops the drain, wherever in the
  sequence it arrives.\<close>

lemma files_error_stops:
  "left (fst (completions rimrafCallback_files [(Some e, None)] x)) = 0"
  by (cases x) (simp add: rimrafCallback_files_def)

lemma dirs_error_stops:
  "left (fst (completions rimrafCallback_dirs [(Some e, None)] x)) = 0"
  by (cases x) (simp add: rimrafCallback_dirs_def)

lemma files_stop_at_error:
  assumes "c \<in> set cs" and "fst c \<noteq> None" and "snd c = None"
  shows "left (fst (completions rimrafCallback_files cs x)) = 0"
proof -
  from assms(1) obtain ys zs where cs: "cs = ys @ [c] @ zs" by (auto dest: split_list)
  from assms(2,3) obtain e where c: "c = (Some e, None)" by (cases c) auto
  let ?y = "completions rimrafCallback_files ys x"
  have "left (fst (completions rimrafCallback_files [c] ?y)) = 0"
    unfolding c by (rule files_error_stops)
  from files_stopped [OF this, of zs] this show ?thesis
    by (simp only: cs completions_append)
qed

lemma dirs_stop_at_error:
  assumes "c \<in> set cs" and "fst c \<noteq> None" and "snd c = None"
  shows "left (fst (completions rimrafCallback_dirs cs x)) = 0"
proof -
  from assms(1) obtain ys zs where cs: "cs = ys @ [c] @ zs" by (auto dest: split_list)
  from assms(2,3) obtain e where c: "c = (Some e, None)" by (cases c) auto
  let ?y = "completions rimrafCallback_dirs ys x"
  have "left (fst (completions rimrafCallback_dirs [c] ?y)) = 0"
    unfolding c by (rule dirs_error_stops)
  from dirs_stopped [OF this, of zs] this show ?thesis
    by (simp only: cs completions_append)
qed

text \<open>The invariant of a combined cleanup whose callback returns.\<close>

lemma answered_files_done:
  assumes "left (fileDrain r) = 0" "left (dirDrain r) = 0" "results r = []"
  shows "answered (files_done c r)"
proof (cases "fst c")
  case None
  obtain s' d calls reqs where cd: "cleanupDirs (mstate r) = (s', d, calls, reqs)"
    by (cases "cleanupDirs (mstate r)") auto
  from settled_cleanupDirs [OF cd] have "length calls = (if left d = 0 then 1 else 0)"
    by (simp add: settled_def)
  with None cd assms show ?thesis by (simp add: files_done_def answered_def)
next
  case (Some e)
  with assms show ?thesis by (simp add: files_done_def answered_def)
qed

lemma files_call_shape:
  "rimrafCallback_files err None d = (d', calls, exn) \<Longrightarrow>
   (calls = [] \<and> (left d = 0 \<longrightarrow> d' = d)) \<or> (\<exists>c. calls = [c] \<and> left d' = 0 \<and> 0 < left d)"
  by (auto simp: rimrafCallback_files_def Let_def split: if_splits option.splits)

lemma dirs_call_shape:
  "rimrafCallback_dirs err None d = (d', calls, exn) \<Longrightarrow>
   (calls = [] \<and> (left d = 0 \<longrightarrow> d' = d)) \<or> (\<exists>c. calls = [c] \<and> left d' = 0 \<and> 0 < left d)"
  by (auto simp: rimrafCallback_dirs_def Let_def split: if_splits option.splits)

lemma answered_cleanup: "answered (cleanup s)"
proof (cases "tracking s")
  case False
  then show ?thesis by (simp add: cleanup_def answered_def)
next
  case True
  show ?thesis
  proof (cases "filesToDelete s = []")
    case True
    with \<open>tracking s\<close> show ?thesis
      by (simp add: cleanup_def cleanupFiles_def answered_files_done)
  next
    case False
    with \<open>tracking s\<close> show ?thesis
      by (simp add: cleanup_def cleanupFiles_def answered_def)
  qed
qed

lemma answered_step:
  assumes a: "answered r" and ret: "callback_returns ev"
  shows "answered (step ev r)"
proof (cases ev)
  case (FileRemoved err thrown)
  with ret have thrown: "thrown = None" by simp
  obtain d' calls exn where c: "rimrafCallback_files err None (fileDrain r) = (d', calls, exn)"
    by (cases "rimrafCallback_files err None (fileDrain r)") auto
  from files_call_shape [OF c] show ?thesis
  proof
    assume n: "calls = [] \<and> (left (fileDrain r) = 0 \<longrightarrow> d' = fileDrain r)"
    show ?thesis
    proof (cases "left (fileDrain r) = 0")
      case True
      with n c a FileRemoved thrown show ?thesis by simp
    next
      case False
      with n c a FileRemoved thrown show ?thesis
        by (auto simp: answered_def rimrafCallback_files_def Let_def
            split: if_splits option.splits)
    qed
  next
    assume "\<exists>c. calls = [c] \<and> left d' = 0 \<and> 0 < left (fileDrain r)"
    then obtain c1 where c1: "calls = [c1]" "left d' = 0" "0 < left (fileDrain r)" by blast
    with a have "left (dirDrain r) = 0" "results r = []"
      by (auto simp: answered_def split: if_splits)
    with c1 have "answered (files_done c1 (r\<lparr>fileDrain := d'\<rparr>))"
      by (intro answered_files_done) simp_all
    with c c1 FileRemoved thrown show ?thesis by simp
  qed
next
  case (DirRemoved err thrown)
  with ret have thrown: "thrown = None" by simp
  obtain d' calls exn where c: "rimrafCallback_dirs err None (dirDrain r) = (d', calls, exn)"
    by (cases "rimrafCallback_dirs err None (dirDrain r)") auto
  from dirs_call_shape [OF c] show ?thesis
  proof
    assume n: "calls = [] \<and> (left (dirDrain r) = 0 \<longrightarrow> d' = dirDrain r)"
    show ?thesis
    proof (cases "left (dirDrain r) = 0")
      case True
      with n c a DirRemoved thrown show ?thesis by simp
    next
      case False
      with n c a DirRemoved thrown show ?thesis
        by (auto simp: answered_def rimrafCallback_dirs_def Let_def
            split: if_splits option.splits)
    qed
  next
    assume "\<exists>c. calls = [c] \<and> left d' = 0 \<and> 0 < left (dirDrain r)"
    then obtain c1 where c1: "calls = [c1]" "left d' = 0" "0 < left (dirDrain r)" by blast
    with a have "left (fileDrain r) = 0" "results r = []"
      by (auto simp: answered_def split: if_splits)
    with c c1 DirRemoved thrown show ?thesis by (simp add: answered_def)
  qed
qed (use a in \<open>simp_all add: answered_def\<close>)

lemma run_Cons: "run (ev # evs) r = run evs (step ev r)"
  by (simp add: run_def)

lemma run_append: "run (evs @ later) r = run later (run evs r)"
  by (simp add: run_def)

lemma answered_run:
  "\<forall>ev\<in>set evs. callback_returns ev \<Longrightarrow> answered r \<Longrightarrow> answered (run evs r)"
proof (induction evs arbitrary: r)
  case Nil
  then show ?case by (simp add: run_def)
next
  case (Cons ev evs)
  from Cons.prems have "callback_returns ev" "\<forall>ev\<in>set evs. callback_returns ev" by simp_all
  from Cons.IH [OF this(2) answered_step [OF Cons.prems(2) this(1)]]
  show ?case by (simp add: run_Cons)
qed

lemma step_after_answer:
  assumes "left (fileDrain r) = 0" "left (dirDrain r) = 0"
  shows "results (step ev r) = results r \<and> left (fileDrain (step ev r)) = 0
         \<and> left (dirDrain (step ev r)) = 0"
  using assms
  by (cases ev) (simp_all add: rimrafCallback_files_inert rimrafCallback_dirs_inert)

lemma run_after_answer:
  "left (fileDrain r) = 0 \<Longrightarrow> left (dirDrain r) = 0 \<Longrightarrow> results (run evs r) = results r"
proof (induction evs arbitrary: r)
  case Nil
  then show ?case by (simp add: run_def)
next
  case (Cons ev evs)
  from step_after_answer [OF Cons.prems, of ev]
  have s: "results (step ev r) = results r" "left (fileDrain (step ev r)) = 0"
    "left (dirDrain (step ev r)) = 0" by simp_all
  from Cons.IH [OF s(2,3)] s(1) show ?case by (simp add: run_Cons)
qed

text \<open>
  C7 as stated fails when the callback throws while it is handed the first error:
  \<open>left\<close> keeps its value, so the next completion that reports an error calls the
  callback a second time, with another error. Three removals are dispatched; the first
  to complete reports \<open>EBUSY\<close> and the callback throws, the second reports \<open>EPERM\<close>.
\<close>

theorem C7_counterexample:
  "snd (cleanupFiles_then example_three
          [(Some (Error ''EBUSY''), Some (Error ''thrown by the callback'')),
           (Some (Error ''EPERM''), None)]) =
     [(Some (Error ''EBUSY''), CUndefined), (Some (Error ''EPERM''), CUndefined)]
   \<and> snd (cleanupDirs_then example_three
          [(Some (Error ''EBUSY''), Some (Error ''thrown by the callback'')),
           (Some (Error ''EPERM''), None)]) =
     [(Some (Error ''EBUSY''), Count 0), (Some (Error ''EPERM''), Count 0)]
   \<and> results (run [FileRemoved (Some (Error ''EBUSY'')) (Some (Error ''thrown by the callback'')),
                   FileRemoved (Some (Error ''EPERM'')) None]
        (cleanup example_three)) =
     [(Some (Error ''EBUSY''), Some \<lparr>files = CUndefined, dirs = CUndefined\<rparr>),
      (Some (Error ''EPERM''), Some \<lparr>files = CUndefined, dirs = CUndefined\<rparr>)]"
  by (simp add: example_three_eq cleanupFiles_then_def cleanupDirs_then_def cleanupFiles_def
      cleanupDirs_def rimrafCallback_files_def rimrafCallback_dirs_def run_def cleanup_def
      files_done_def)

text \<open>
  C7, as the code has it: for a callback that returns whenever it is called. Whatever
  completions \<open>cs\<close> arrive after \<open>cleanupFiles\<close> or \<open>cleanupDirs\<close>, in whatever number
  and order, the callback is called at most once. If one of them reports an error, the
  callback has been called exactly once, and the completions arriving later change
  neither the closure variables nor the calls made; the same holds after any call of
  the callback. The combined \<open>cleanup\<close> calls its callback at most once too, whatever
  removals complete and whatever calls of \<open>track\<close> and registrations come in between,
  and nothing changes its answer once given.
\<close>

theorem C7_callback_at_most_once:
  assumes "\<forall>c\<in>set cs. snd c = None" and "\<forall>ev\<in>set evs. callback_returns ev"
  shows "length (snd (cleanupFiles_then s cs)) \<le> 1
   \<and> length (snd (cleanupDirs_then s cs)) \<le> 1
   \<and> ((\<exists>c\<in>set cs. fst c \<noteq> None) \<longrightarrow>
         length (snd (cleanupFiles_then s cs)) = 1
       \<and> length (snd (cleanupDirs_then s cs)) = 1
       \<and> cleanupFiles_then s (cs @ later) = cleanupFiles_then s cs
       \<and> cleanupDirs_then s (cs @ later) = cleanupDirs_then s cs)
   \<and> (snd (cleanupFiles_then s cs) \<noteq> [] \<longrightarrow>
        cleanupFiles_then s (cs @ later) = cleanupFiles_then s cs)
   \<and> (snd (cleanupDirs_then s cs) \<noteq> [] \<longrightarrow>
        cleanupDirs_then s (cs @ later) = cleanupDirs_then s cs)
   \<and> length (results (run evs (cleanup s))) \<le> 1
   \<and> (results (run evs (cleanup s)) \<noteq> [] \<longrightarrow>
        results (run (evs @ evs') (cleanup s)) = results (run evs (cleanup s)))"
proof -
  note sf = settled_cleanupFiles_then [OF assms(1), of s]
  note sd = settled_cleanupDirs_then [OF assms(1), of s]
  have f1: "length (snd (cleanupFiles_then s cs)) \<le> 1"
    using sf by (simp add: settled_def split: if_splits)
  have d1: "length (snd (cleanupDirs_then s cs)) \<le> 1"
    using sd by (simp add: settled_def split: if_splits)
  have fstop: "cleanupFiles_then s (cs @ later) = cleanupFiles_then s cs"
    if "left (fst (cleanupFiles_then s cs)) = 0"
    using files_stopped [OF that, of later] by (simp add: cleanupFiles_then_append)
  have dstop: "cleanupDirs_then s (cs @ later) = cleanupDirs_then s cs"
    if "left (fst (cleanupDirs_then s cs)) = 0"
    using dirs_stopped [OF that, of later] by (simp add: cleanupDirs_then_append)
  have e: "length (snd (cleanupFiles_then s cs)) = 1
       \<and> length (snd (cleanupDirs_then s cs)) = 1
       \<and> cleanupFiles_then s (cs @ later) = cleanupFiles_then s cs
       \<and> cleanupDirs_then s (cs @ later) = cleanupDirs_then s cs"
    if "\<exists>c\<in>set cs. fst c \<noteq> None"
  proof -
    from that obtain c where c: "c \<in> set cs" "fst c \<noteq> None" by blast
    with assms(1) have n: "snd c = None" by simp
    have fz: "left (fst (cleanupFiles_then s cs)) = 0"
      using files_stop_at_error [OF c n] by (simp add: cleanupFiles_then_def split: prod.splits)
    have dz: "left (fst (cleanupDirs_then s cs)) = 0"
      using dirs_stop_at_error [OF c n] by (simp add: cleanupDirs_then_def split: prod.splits)
    from fz dz sf sd fstop dstop show ?thesis by (simp add: settled_def)
  qed
  have f4: "cleanupFiles_then s (cs @ later) = cleanupFiles_then s cs"
    if "snd (cleanupFiles_then s cs) \<noteq> []"
  proof -
    from that sf have "left (fst (cleanupFiles_then s cs)) = 0"
      by (auto simp: settled_def split: if_splits)
    then show ?thesis by (rule fstop)
  qed
  have d4: "cleanupDirs_then s (cs @ later) = cleanupDirs_then s cs"
    if "snd (cleanupDirs_then s cs) \<noteq> []"
  proof -
    from that sd have "left (fst (cleanupDirs_then s cs)) = 0"
      by (auto simp: settled_def split: if_splits)
    then show ?thesis by (rule dstop)
  qed
  note an = answered_run [OF assms(2) answered_cleanup, of s]
  have c1: "length (results (run evs (cleanup s))) \<le> 1"
    using an by (simp add: answered_def split: if_splits)
  have c2: "results (run (evs @ evs') (cleanup s)) = results (run evs (cleanup s))"
    if "results (run evs (cleanup s)) \<noteq> []"
  proof -
    from that an have "left (fileDrain (run evs (cleanup s))) = 0"
      "left (dirDrain (run evs (cleanup s))) = 0"
      by (auto simp: answered_def split: if_splits)
    from run_after_answer [OF this, of evs'] show ?thesis by (simp add: run_append)
  qed
  from f1 d1 e f4 d4 c1 c2 show ?thesis by blast
qed

theorem C7_witness:
  "snd (cleanupFiles_then example_three [(None, None), (Some (Error ''EBUSY''), None)]) =
       [(Some (Error ''EBUSY''), CUndefined)]
   \<and> cleanupFiles_then example_three
        ([(None, None), (Some (Error ''EBUSY''), None)] @
         [(Some (Error ''EPERM''), Some (Error ''thrown by the callback'')), (None, None)]) =
       cleanupFiles_then example_three [(None, None), (Some (Error ''EBUSY''), None)]
   \<and> snd (cleanupDirs_then example_three [(None, None), (Some (Error ''EBUSY''), None)]) =
       [(Some (Error ''EBUSY''), Count 1)]
   \<and> cleanupDirs_then example_three
        ([(None, None), (Some (Error ''EBUSY''), None)] @
         [(Some (Error ''EPERM''), Some (Error ''thrown by the callback'')), (None, None)]) =
       cleanupDirs_then example_three [(None, None), (Some (Error ''EBUSY''), None)]
   \<and> results (run [FileRemoved None None, FileRemoved (Some (Error ''EBUSY'')) None]
        (cleanup example_three)) =
       [(Some (Error ''EBUSY''), Some \<lparr>files = CUndefined, dirs = CUndefined\<rparr>)]
   \<and> results (run ([FileRemoved None None, FileRemoved (Some (Error ''EBUSY'')) None] @
          [FileRemoved (Some (Error ''EPERM'')) (Some (Error ''thrown by the callback'')),
           Track (JBoolean False), DirRemoved None None])
        (cleanup example_three)) =
       [(Some (Error ''EBUSY''), Some \<lparr>files = CUndefined, dirs = CUndefined\<rparr>)]"
proof -
  let ?cs = "[(None, None), (Some (Error ''EBUSY''), None)] :: completion list"
  let ?evs = "[FileRemoved None None, FileRemoved (Some (Error ''EBUSY'')) None]"
  have h1: "\<forall>c\<in>set ?cs. snd c = None" by simp
  have h2: "\<forall>ev\<in>set ?evs. callback_returns ev" by simp
  have h3: "\<exists>c\<in>set ?cs. fst c \<noteq> None" by simp
  have f: "snd (cleanupFiles_then example_three ?cs) = [(Some (Error ''EBUSY''), CUndefined)]"
    by (simp add: example_three_eq cleanupFiles_then_def cleanupFiles_def
        rimrafCallback_files_def)
  have d: "snd (cleanupDirs_then example_three ?cs) = [(Some (Error ''EBUSY''), Count 1)]"
    by (simp add: example_three_eq cleanupDirs_then_def cleanupDirs_def
        rimrafCallback_dirs_def)
  have c: "results (run ?evs (cleanup example_three)) =
      [(Some (Error ''EBUSY''), Some \<lparr>files = CUndefined, dirs = CUndefined\<rparr>)]"
    by (simp add: example_three_eq run_def cleanup_def cleanupFiles_def
        rimrafCallback_files_def files_done_def)
  from C7_callback_at_most_once [OF h1 h2, of example_three
      "[(Some (Error ''EPERM''), Some (Error ''thrown by the callback'')), (None, None)]"
      "[FileRemoved (Some (Error ''EPERM'')) (Some (Error ''thrown by the callback'')),
        Track (JBoolean False), DirRemoved None None]"] h1 h2 h3 f d c
  show ?thesis by simp
qed

end
